theory Spec2Isabelle
  imports
    Main
    "HOL-Library.Char_ord"
    "HOL-Library.List_Lexorder"
    "HOL-Library.Sublist"
    "HOL-Library.Multiset"
    "HOL-Library.AList"
begin

section \<open>The test-name prefix filter (cmd/evergreen-test/main.go, filterTests)\<close>

text \<open>
  Go strings are byte sequences compared bytewise, which is the lexicographic order on
  \<^typ>\<open>string\<close> given by \<open>Char_ord\<close> and \<open>List_Lexorder\<close>. \<open>strings.HasPrefix s p\<close> is
  \<^term>\<open>prefix p s\<close>.

  \<^verbatim>\<open>
  func filterTests(tests []string) []string {
      sort.Strings(tests)
      res := make([]string, 0, len(tests))
      for i := range tests {
          if i >= len(tests)-1 || strings.HasPrefix(tests[i+1], tests[i]+"/") {
              continue
          }
          res = append(res, tests[i])
      }
      return res
  }
  \<close>

  The condition of the loop body. The \<open>||\<close> of the source does not evaluate its right
  operand when the left one holds, so \<open>tests[i+1]\<close> is read in range only.
\<close>

definition skipTest :: "string list \<Rightarrow> nat \<Rightarrow> bool" where
  "skipTest tests i =
     (if int i \<ge> int (length tests) - 1 then True
      else prefix (tests ! i @ ''/'') (tests ! (i + 1)))"

text \<open>One iteration of the loop: \<open>continue\<close>, or append \<open>tests[i]\<close> to \<open>res\<close>.\<close>

definition filterStep :: "string list \<Rightarrow> string list \<Rightarrow> nat \<Rightarrow> string list" where
  "filterStep tests res i = (if skipTest tests i then res else res @ [tests ! i])"

text \<open>
  \<open>sort.Strings\<close> sorts the slice it is given in place, so the caller's slice is part of
  the outcome: \<open>filterTests_run\<close> returns the contents of the argument slice after the call
  together with the returned slice. \<open>for i := range tests\<close> runs over \<open>0 .. len(tests)-1\<close>.
\<close>

definition filterTests_run :: "string list \<Rightarrow> string list \<times> string list" where
  "filterTests_run tests0 =
     (let tests = sort tests0;
          res = foldl (filterStep tests) [] [0..<length tests]
      in (tests, res))"

text \<open>The value returned by \<open>filterTests\<close>.\<close>

definition filterTests :: "string list \<Rightarrow> string list" where
  "filterTests tests0 = snd (filterTests_run tests0)"

text \<open>
  An auxiliary description of the loop by recursion on the sorted list, used in the proofs
  only: it is shown below to compute what the loop computes.
\<close>

fun adjacentFilter :: "string list \<Rightarrow> string list" where
  "adjacentFilter [] = []"
| "adjacentFilter [x] = []"
| "adjacentFilter (x # y # ys) =
     (if prefix (x @ ''/'') y then adjacentFilter (y # ys) else x # adjacentFilter (y # ys))"


section \<open>The report tree and Go maps\<close>

text \<open>
  The structs of \<open>main.go\<close>. \<open>Created\<close> is a \<open>time.Time\<close>, kept as an opaque number.
\<close>

record taskInfo =
  Task :: string
  FailedTests :: "string list"

record variantInfo =
  DisplayName :: string
  FailedTasks :: "taskInfo list"

record revisionInfo =
  VersionID :: string
  Created :: int
  Revision :: string
  Message :: string
  FailedVariants :: "variantInfo list"

text \<open>
  A Go map is an association list with distinct keys; its order stands for nothing, since
  \<open>range\<close> over a map visits the entries in an unspecified order (see \<open>sortSlice\<close> below).
  \<open>m[k]\<close> on a missing key is the zero value of the value type, and \<open>m[k] = v\<close> is
  \<^const>\<open>AList.update\<close>.
\<close>

definition index_or :: "'v \<Rightarrow> ('k \<times> 'v) list \<Rightarrow> 'k \<Rightarrow> 'v" where
  "index_or zero m k = (case map_of m k of None \<Rightarrow> zero | Some v \<Rightarrow> v)"


text \<open>\<open>xs[:n]\<close> panics unless \<open>0 \<le> n \<le> cap(xs)\<close>; the model takes \<open>len\<close> for \<open>cap\<close>.\<close>

datatype panic = SliceBoundsOutOfRange

definition sliceTo :: "'a list \<Rightarrow> int \<Rightarrow> panic + 'a list" where
  "sliceTo xs n =
     (if 0 \<le> n \<and> n \<le> int (length xs) then Inr (take (nat n) xs)
      else Inl SliceBoundsOutOfRange)"


section \<open>The topfail reporter (cmd/evergreen-test/topfail.go)\<close>

record failedTestInfo =
  Test :: string
  FailedTasksPerRevision :: "(string \<times> string list) list"
  FailuresPerRevision :: "(string \<times> int) list"
  TotalFailures :: int




text \<open>
  Lines 113 to 119:
  \<^verbatim>\<open>
  if limit >= 0 && len(testInfos) > limit {
      n := limit
      if n >= len(testInfos) {
          n = len(testInfos) - 1
      }
      testInfos = testInfos[:n]
  }
  \<close>
\<close>

definition truncateTop :: "int \<Rightarrow> 'a list \<Rightarrow> panic + 'a list" where
  "truncateTop limit testInfos =
     (if limit \<ge> 0 \<and> int (length testInfos) > limit then
        (let n0 = limit;
             n = (if n0 \<ge> int (length testInfos) then int (length testInfos) - 1 else n0)
         in sliceTo testInfos n)
      else Inr testInfos)"

text \<open>
  The table body of lines 127 to 130: one row per element, the count and then the name.
  The header line and the tab alignment are fixed text and left out.
\<close>

definition printRows :: "failedTestInfo list \<Rightarrow> (int \<times> string) list" where
  "printRows testInfos = map (\<lambda>info. (TotalFailures info, Test info)) testInfos"

text \<open>The rows printed for the sorted slice \<open>testInfos\<close> and the limit.\<close>

definition topfail_rows :: "int \<Rightarrow> failedTestInfo list \<Rightarrow> panic + (int \<times> string) list" where
  "topfail_rows limit testInfos =
     (case truncateTop limit testInfos of Inl p \<Rightarrow> Inl p | Inr kept \<Rightarrow> Inr (printRows kept))"



section \<open>The failstats reporter\<close>








section \<open>The GraphQL helper and the report fetcher (main.go, graphql and getInfos)\<close>

text \<open>
  The helper talks to the network through library calls. What each call yields during one
  run of the helper is an input of the model: \<open>marshalResult\<close> is the result of
  \<open>json.Marshal\<close> (the request body, or \<open>None\<close> for an error), \<open>newRequestErr\<close> says
  whether \<open>http.NewRequestWithContext\<close> returned an error, \<open>doResult\<close> is the result of
  \<open>http.DefaultClient.Do\<close> (a response, or \<open>None\<close> for a transport error; \<open>Do\<close> returns a
  response with any status code without an error), and \<open>readAll\<close> is the result of
  \<open>io.ReadAll(res.Body)\<close>.
\<close>

record httpResponse =
  StatusCode :: int
  readAll :: "string option"

record exchange =
  marshalResult :: "string option"
  newRequestErr :: bool
  doResult :: "httpResponse option"

text \<open>One constructor for each \<open>fmt.Errorf\<close> of \<open>graphql\<close>, in the order of the source.\<close>

datatype gqlError =
  ErrMarshal | ErrBuild | ErrQuery | ErrRead | ErrUnmarshal | ErrGraphQL "string list"

text \<open>
  \<open>decodeErrors data\<close> is \<open>json.Unmarshal(data, &errRes)\<close>: \<open>None\<close> for an error, and
  otherwise the decoded \<open>errRes.Errors\<close>, one string for each entry.
\<close>

definition graphql :: "(string \<Rightarrow> string list option) \<Rightarrow> exchange \<Rightarrow> gqlError + string" where
  "graphql decodeErrors ex =
     (case marshalResult ex of
        None \<Rightarrow> Inl ErrMarshal
      | Some body \<Rightarrow>
          if newRequestErr ex then Inl ErrBuild
          else (case doResult ex of
                  None \<Rightarrow> Inl ErrQuery
                | Some res \<Rightarrow>
                    (case readAll res of
                       None \<Rightarrow> Inl ErrRead
                     | Some data \<Rightarrow>
                         (case decodeErrors data of
                            None \<Rightarrow> Inl ErrUnmarshal
                          | Some errors \<Rightarrow>
                              if length errors > 0 then Inl (ErrGraphQL errors)
                              else Inr data))))"

text \<open>
  The response types of \<open>getInfos\<close>. Field names that two of the Go structs share carry a
  prefix here.
\<close>

record taskRes =
  tr_DisplayName :: string
  tr_Execution :: int
  tr_ID :: string
  tr_Status :: string

record buildVariant =
  bv_DisplayName :: string
  bv_Tasks :: "taskRes list"

record versionRes =
  vr_ID :: string
  vr_Revision :: string
  vr_Message :: string
  vr_BuildVariants :: "buildVariant list"
  vr_CreateTime :: int

record taskTestSample =
  Execution :: int
  MatchingFailedTestNames :: "string list"
  TaskID :: string
  TotalTestCount :: int

text \<open>
  The two requests of the fetcher, with the variables that are not constant: the project
  and the number of versions, and the version with the task ids.
\<close>

datatype request = MainlineCommitsQuery string int | TaskTestSampleQuery string "string list"

text \<open>
  What the fetcher runs against: \<open>net n req\<close> is what happens when the request \<open>req\<close> is
  sent as the \<open>n\<close>-th call of the helper, the three \<open>unmarshal\<close> functions are
  \<open>json.Unmarshal\<close> into \<open>errRes\<close> and into the two response structs, and \<open>mapKeys\<close> is the
  order in which \<open>slices.Collect(maps.Keys(taskIDs))\<close> lists the keys.
\<close>

record env =
  net :: "nat \<Rightarrow> request \<Rightarrow> exchange"
  unmarshalErrors :: "string \<Rightarrow> string list option"
  unmarshalCommits :: "string \<Rightarrow> versionRes list option"
  unmarshalSamples :: "string \<Rightarrow> taskTestSample list option"
  mapKeys :: "(string \<times> string) list \<Rightarrow> string list"

text \<open>One constructor for each \<open>fmt.Errorf\<close> of \<open>getInfos\<close>.\<close>

datatype fetchError =
  ErrQueryMainline gqlError | ErrUnmarshalMainline
| ErrQuerySample gqlError | ErrUnmarshalSample

text \<open>
  The fetcher has one effect besides its result: the requests it sends. The model passes
  the list \<open>sent\<close> of the requests sent so far through the loops and returns it with the
  result, so the next call of the helper is call number \<open>length sent\<close>. The debug log
  lines are left out.

  The loop over the build variants of one version (the body builds \<open>taskIDs\<close>, queries
  the test samples and appends one \<open>variantInfo\<close>). A failing call returns from
  \<open>getInfos\<close> at once.
\<close>

fun fetchVariants ::
  "env \<Rightarrow> string \<Rightarrow> buildVariant list \<Rightarrow> request list \<Rightarrow> variantInfo list
     \<Rightarrow> (fetchError + variantInfo list) \<times> request list" where
  "fetchVariants e versionID [] sent failedVariants = (Inr failedVariants, sent)"
| "fetchVariants e versionID (variant # rest) sent failedVariants =
     (let taskIDs = foldl (\<lambda>m t. AList.update (tr_ID t) (tr_DisplayName t) m) [] (bv_Tasks variant);
          req = TaskTestSampleQuery versionID (mapKeys e taskIDs)
      in case graphql (unmarshalErrors e) (net e (length sent) req) of
           Inl err \<Rightarrow> (Inl (ErrQuerySample err), sent @ [req])
         | Inr resJSON \<Rightarrow>
             (case unmarshalSamples e resJSON of
                None \<Rightarrow> (Inl ErrUnmarshalSample, sent @ [req])
              | Some samples \<Rightarrow>
                  let failedTasks =
                        map (\<lambda>sample. \<lparr>Task = index_or [] taskIDs (TaskID sample),
                                       FailedTests = MatchingFailedTestNames sample\<rparr>) samples
                  in fetchVariants e versionID rest (sent @ [req])
                       (failedVariants @
                          [\<lparr>DisplayName = bv_DisplayName variant, FailedTasks = failedTasks\<rparr>])))"

text \<open>The loop over the versions.\<close>

fun fetchVersions ::
  "env \<Rightarrow> versionRes list \<Rightarrow> request list \<Rightarrow> revisionInfo list
     \<Rightarrow> (fetchError + revisionInfo list) \<times> request list" where
  "fetchVersions e [] sent infos = (Inr infos, sent)"
| "fetchVersions e (ver # rest) sent infos =
     (case fetchVariants e (vr_ID ver) (vr_BuildVariants ver) sent [] of
        (Inl err, sent') \<Rightarrow> (Inl err, sent')
      | (Inr failedVariants, sent') \<Rightarrow>
          fetchVersions e rest sent'
            (infos @ [\<lparr>VersionID = vr_ID ver, Created = vr_CreateTime ver,
                        Revision = vr_Revision ver, Message = vr_Message ver,
                        FailedVariants = failedVariants\<rparr>]))"

definition getInfos ::
  "env \<Rightarrow> string \<Rightarrow> int \<Rightarrow> (fetchError + revisionInfo list) \<times> request list" where
  "getInfos e projectID versionCount =
     (let req = MainlineCommitsQuery projectID versionCount
      in case graphql (unmarshalErrors e) (net e 0 req) of
           Inl err \<Rightarrow> (Inl (ErrQueryMainline err), [req])
         | Inr resJSON \<Rightarrow>
             (case unmarshalCommits e resJSON of
                None \<Rightarrow> (Inl ErrUnmarshalMainline, [req])
              | Some vers \<Rightarrow> fetchVersions e vers [req] []))"

text \<open>
  Call number \<open>k\<close> of the helper, sending \<open>req\<close>, fails for the fetcher when the helper
  returns an error or when the body that the helper returns cannot be deserialized into
  the response struct of that query.
\<close>

definition callFails :: "env \<Rightarrow> nat \<Rightarrow> request \<Rightarrow> bool" where
  "callFails e k req =
     (case graphql (unmarshalErrors e) (net e k req) of
        Inl err \<Rightarrow> True
      | Inr data \<Rightarrow>
          (case req of
             MainlineCommitsQuery projectID versionCount \<Rightarrow> unmarshalCommits e data = None
           | TaskTestSampleQuery versionID taskIds \<Rightarrow> unmarshalSamples e data = None))"

text \<open>
  Two descriptions of a list of sent requests, used in the proofs: no call failed, and
  the last call is the first one that failed.
\<close>

definition allGood :: "env \<Rightarrow> request list \<Rightarrow> bool" where
  "allGood e sent = (\<forall>k<length sent. \<not> callFails e k (sent ! k))"

definition lastBad :: "env \<Rightarrow> request list \<Rightarrow> bool" where
  "lastBad e sent = (sent \<noteq> [] \<and> allGood e (butlast sent)
      \<and> callFails e (length sent - 1) (last sent))"


section \<open>Expression operators (agg/operator.go)\<close>

text \<open>
  A value of Go's \<open>any\<close> that ends up in a document: a scalar of some type \<open>'a\<close>, an array
  \<open>bson.A\<close>, or a document \<open>bson.D\<close>, an ordered list of keys with values. An \<open>Operator\<close> is a
  \<open>bson.D\<close>.
\<close>

datatype 'a bson = Value 'a | A "'a bson list" | D "(string \<times> 'a bson) list"

type_synonym 'a Operator = "(string \<times> 'a bson) list"

text \<open>
  \<^verbatim>\<open>
  func Max(exprs ...any) Operator {
      var body any
      if len(exprs) == 1 {
          body = exprs[0]
      } else {
          body = bson.A(exprs)
      }
      return Operator{{Key: "$max", Value: body}}
  }
  \<close>
  \<open>Min\<close> and \<open>MergeObjects\<close> have the same body with their own key.
\<close>

definition Max_agg :: "'a bson list \<Rightarrow> 'a Operator" where
  "Max_agg exprs =
     (let body = (if length exprs = 1 then exprs ! 0 else A exprs)
      in [(''$max'', body)])"

definition Min_agg :: "'a bson list \<Rightarrow> 'a Operator" where
  "Min_agg exprs =
     (let body = (if length exprs = 1 then exprs ! 0 else A exprs)
      in [(''$min'', body)])"

definition MergeObjects :: "'a bson list \<Rightarrow> 'a Operator" where
  "MergeObjects documentExprs =
     (let body = (if length documentExprs = 1 then documentExprs ! 0 else A documentExprs)
      in [(''$mergeObjects'', body)])"


section \<open>Sample inputs\<close>


definition sampleA :: failedTestInfo where
  "sampleA = \<lparr>Test = ''TestA'', FailedTasksPerRevision = [(''r1'', [''unit''])],
               FailuresPerRevision = [(''r1'', 1)], TotalFailures = 1\<rparr>"

definition sampleB :: failedTestInfo where
  "sampleB = \<lparr>Test = ''TestB'', FailedTasksPerRevision = [(''r1'', [''unit'', ''race''])],
               FailuresPerRevision = [(''r1'', 2)], TotalFailures = 2\<rparr>"


text \<open>
  A decoder for three response bodies: \<open>{}\<close>, an object without errors; \<open>{data:5}\<close>,
  an object without errors whose data is not the expected struct; and \<open>{errors}\<close>, an
  object with one entry in its errors array. Anything else is not JSON.
\<close>

definition sampleDecoder :: "string \<Rightarrow> string list option" where
  "sampleDecoder data =
     (if data = ''{}'' \<or> data = ''{data:5}'' then Some []
      else if data = ''{errors}'' then Some [''boom'']
      else None)"

text \<open>A network that is down, and a server that answers every query with \<open>{data:5}\<close>.\<close>

definition downEnv :: env where
  "downEnv =
     \<lparr>net = (\<lambda>n req. \<lparr>marshalResult = Some ''{query}'', newRequestErr = False,
                         doResult = None\<rparr>),
      unmarshalErrors = sampleDecoder,
      unmarshalCommits = (\<lambda>data. if data = ''{}'' then Some [] else None),
      unmarshalSamples = (\<lambda>data. if data = ''{}'' then Some [] else None),
      mapKeys = map fst\<rparr>"

definition garbledEnv :: env where
  "garbledEnv =
     \<lparr>net = (\<lambda>n req. \<lparr>marshalResult = Some ''{query}'', newRequestErr = False,
                         doResult = Some \<lparr>StatusCode = 200, readAll = Some ''{data:5}''\<rparr>\<rparr>),
      unmarshalErrors = sampleDecoder,
      unmarshalCommits = (\<lambda>data. if data = ''{}'' then Some [] else None),
      unmarshalSamples = (\<lambda>data. if data = ''{}'' then Some [] else None),
      mapKeys = map fst\<rparr>"


section \<open>The loop and its recursive description\<close>

lemma filterStep_Suc: "filterStep (x # y # ys) res (Suc i) = filterStep (y # ys) res i"
  by (simp add: filterStep_def skipTest_def)

lemma filterStep_acc: "filterStep ts acc i = acc @ filterStep ts [] i"
  by (simp add: filterStep_def)

lemma filterStep_head:
  "filterStep (x # y # ys) [] 0 = (if prefix (x @ ''/'') y then [] else [x])"
  by (simp add: filterStep_def skipTest_def)

lemma foldl_filterStep_acc:
  "foldl (filterStep ts) acc js = acc @ foldl (filterStep ts) [] js"
proof (induction js arbitrary: acc)
  case Nil
  show ?case by simp
next
  case (Cons j js)
  have "foldl (filterStep ts) acc (j # js) = foldl (filterStep ts) (acc @ filterStep ts [] j) js"
    using filterStep_acc [of ts acc j] by simp
  also have "\<dots> = (acc @ filterStep ts [] j) @ foldl (filterStep ts) [] js"
    by (rule Cons.IH)
  also have "\<dots> = acc @ foldl (filterStep ts) (filterStep ts [] j) js"
    using Cons.IH [of "filterStep ts [] j"] by simp
  finally show ?case by simp
qed

lemma filter_loop_eq: "foldl (filterStep ts) [] [0..<length ts] = adjacentFilter ts"
proof (induction ts rule: adjacentFilter.induct)
  case 1
  show ?case by simp
next
  case (2 x)
  show ?case by (simp add: filterStep_def skipTest_def)
next
  case (3 x y ys)
  let ?ts = "x # y # ys"
  have idx: "[0..<length ?ts] = 0 # map Suc [0..<length (y # ys)]"
    by (simp add: upt_conv_Cons map_Suc_upt del: upt_Suc)
  have "foldl (filterStep ?ts) [] [0..<length ?ts]
        = foldl (filterStep ?ts) (filterStep ?ts [] 0) (map Suc [0..<length (y # ys)])"
    by (simp only: idx foldl_Cons)
  also have "\<dots> = filterStep ?ts [] 0 @ foldl (filterStep ?ts) [] (map Suc [0..<length (y # ys)])"
    by (rule foldl_filterStep_acc)
  also have "foldl (filterStep ?ts) [] (map Suc [0..<length (y # ys)])
        = foldl (filterStep (y # ys)) [] [0..<length (y # ys)]"
    by (simp only: foldl_map filterStep_Suc)
  also have "\<dots> = adjacentFilter (y # ys)"
    using "3.IH" by (cases "prefix (x @ ''/'') y") simp_all
  finally show ?case by (simp add: filterStep_head)
qed

lemma filterTests_eq: "filterTests tests = adjacentFilter (sort tests)"
  by (simp add: filterTests_def filterTests_run_def filter_loop_eq Let_def)

lemma adjacentFilter_successor:
  "x \<in> set (adjacentFilter s) \<Longrightarrow>
     \<exists>i. i + 1 < length s \<and> s ! i = x \<and> \<not> prefix (x @ ''/'') (s ! (i + 1))"
proof (induction s rule: adjacentFilter.induct)
  case 1
  then show ?case by simp
next
  case (2 x)
  then show ?case by simp
next
  case (3 a b bs)
  show ?case
  proof (cases "x \<in> set (adjacentFilter (b # bs))")
    case True
    then obtain i where "i + 1 < length (b # bs)" "(b # bs) ! i = x"
        "\<not> prefix (x @ ''/'') ((b # bs) ! (i + 1))"
      using "3.IH" by (cases "prefix (a @ ''/'') b") blast+
    then have "Suc i + 1 < length (a # b # bs) \<and> (a # b # bs) ! Suc i = x
        \<and> \<not> prefix (x @ ''/'') ((a # b # bs) ! (Suc i + 1))"
      by simp
    then show ?thesis by blast
  next
    case False
    with "3.prems" have "x = a" "\<not> prefix (a @ ''/'') b"
      by (auto split: if_splits)
    then have "0 + 1 < length (a # b # bs) \<and> (a # b # bs) ! 0 = x
        \<and> \<not> prefix (x @ ''/'') ((a # b # bs) ! (0 + 1))"
      by simp
    then show ?thesis by blast
  qed
qed

lemma mset_adjacentFilter: "mset (adjacentFilter s) \<subseteq># mset (butlast s)"
proof (induction s rule: adjacentFilter.induct)
  case (3 x y ys)
  then show ?case
    by (auto intro: subset_mset.order_trans)
qed simp_all

lemma sorted_le_last: "sorted xs \<Longrightarrow> y \<in> set xs \<Longrightarrow> y \<le> last xs"
  by (induction xs) auto

lemma last_sort_Max:
  fixes tests :: "'a::linorder list"
  assumes "tests \<noteq> []"
  shows "last (sort tests) = Max (set tests)"
proof -
  have ne: "sort tests \<noteq> []"
    using assms by (metis length_sort length_0_conv)
  then have "last (sort tests) \<in> set tests"
    using last_in_set [OF ne] by simp
  moreover have "\<And>y. y \<in> set tests \<Longrightarrow> y \<le> last (sort tests)"
    using sorted_le_last [of "sort tests"] by simp
  ultimately show ?thesis
    by (intro Max_eqI [symmetric]) simp_all
qed

lemma mset_butlast: "xs \<noteq> [] \<Longrightarrow> mset (butlast xs) = mset xs - {#last xs#}"
  by (induction xs) auto


section \<open>Truncation and ranking\<close>

lemma truncateTop_eq:
  "truncateTop limit xs =
     Inr (if 0 \<le> limit \<and> limit < int (length xs) then take (nat limit) xs else xs)"
  by (simp add: truncateTop_def sliceTo_def Let_def)

lemma topfail_rows_eq:
  "topfail_rows limit xs =
     Inr (printRows (if 0 \<le> limit \<and> limit < int (length xs) then take (nat limit) xs else xs))"
  by (simp add: topfail_rows_def truncateTop_eq)









section \<open>Failures of the helper and of the fetcher\<close>

lemma graphql_fails_iff:
  "(\<exists>err. graphql u ex = Inl err) \<longleftrightarrow>
     (marshalResult ex = None \<or> newRequestErr ex \<or> doResult ex = None
      \<or> (\<exists>res. doResult ex = Some res
            \<and> (readAll res = None
               \<or> (\<exists>data. readAll res = Some data
                     \<and> (u data = None \<or> (\<exists>errors. u data = Some errors \<and> errors \<noteq> []))))))"
  by (auto simp add: graphql_def split: option.splits)

lemma allGood_snoc:
  "allGood e sent \<Longrightarrow> \<not> callFails e (length sent) req \<Longrightarrow> allGood e (sent @ [req])"
  by (auto simp add: allGood_def nth_append less_Suc_eq)

lemma lastBad_snoc:
  "allGood e sent \<Longrightarrow> callFails e (length sent) req \<Longrightarrow> lastBad e (sent @ [req])"
  by (simp add: lastBad_def)

lemma fetchVariants_inv:
  "allGood e sent \<Longrightarrow> fetchVariants e vid vs sent acc = (res, sent') \<Longrightarrow>
     (case res of Inl err \<Rightarrow> lastBad e sent' | Inr fvs \<Rightarrow> allGood e sent')"
proof (induction vs arbitrary: sent acc)
  case Nil
  then show ?case by auto
next
  case (Cons variant rest)
  let ?ids = "foldl (\<lambda>m t. AList.update (tr_ID t) (tr_DisplayName t) m) [] (bv_Tasks variant)"
  let ?req = "TaskTestSampleQuery vid (mapKeys e ?ids)"
  show ?case
  proof (cases "graphql (unmarshalErrors e) (net e (length sent) ?req)")
    case (Inl ge)
    then have "callFails e (length sent) ?req"
      by (simp add: callFails_def)
    then have "lastBad e (sent @ [?req])"
      using Cons.prems(1) by (rule lastBad_snoc [rotated])
    moreover from Inl Cons.prems(2) have "res = Inl (ErrQuerySample ge)" "sent' = sent @ [?req]"
      by (simp_all add: Let_def)
    ultimately show ?thesis by simp
  next
    case (Inr data)
    show ?thesis
    proof (cases "unmarshalSamples e data")
      case None
      with Inr have "callFails e (length sent) ?req"
        by (simp add: callFails_def)
      then have "lastBad e (sent @ [?req])"
        using Cons.prems(1) by (rule lastBad_snoc [rotated])
      moreover from Inr None Cons.prems(2) have "res = Inl ErrUnmarshalSample" "sent' = sent @ [?req]"
        by (simp_all add: Let_def)
      ultimately show ?thesis by simp
    next
      case (Some samples)
      with Inr have "\<not> callFails e (length sent) ?req"
        by (simp add: callFails_def)
      then have g: "allGood e (sent @ [?req])"
        using Cons.prems(1) by (rule allGood_snoc [rotated])
      from Inr Some Cons.prems(2) show ?thesis
        using Cons.IH [OF g] by (simp add: Let_def)
    qed
  qed
qed

lemma fetchVersions_inv:
  "allGood e sent \<Longrightarrow> fetchVersions e vers sent infos = (res, sent') \<Longrightarrow>
     (case res of Inl err \<Rightarrow> lastBad e sent' | Inr is \<Rightarrow> allGood e sent')"
proof (induction vers arbitrary: sent infos)
  case Nil
  then show ?case by auto
next
  case (Cons ver rest)
  obtain r1 s1 where f: "fetchVariants e (vr_ID ver) (vr_BuildVariants ver) sent [] = (r1, s1)"
    by (cases "fetchVariants e (vr_ID ver) (vr_BuildVariants ver) sent []") blast
  note inv = fetchVariants_inv [OF Cons.prems(1) f]
  show ?case
  proof (cases r1)
    case (Inl err)
    with f Cons.prems(2) have "res = Inl err" "sent' = s1"
      by simp_all
    with inv Inl show ?thesis by simp
  next
    case (Inr fvs)
    with inv have g: "allGood e s1" by simp
    from f Inr Cons.prems(2) show ?thesis
      using Cons.IH [OF g] by simp
  qed
qed

lemma getInfos_inv:
  "(case fst (getInfos e p v) of
      Inl err \<Rightarrow> lastBad e (snd (getInfos e p v))
    | Inr infos \<Rightarrow> allGood e (snd (getInfos e p v)))"
proof -
  let ?req = "MainlineCommitsQuery p v"
  have e0: "allGood e []"
    by (simp add: allGood_def)
  show ?thesis
  proof (cases "graphql (unmarshalErrors e) (net e 0 ?req)")
    case (Inl ge)
    then have "callFails e (length ([] :: request list)) ?req"
      by (simp add: callFails_def)
    with e0 have "lastBad e ([] @ [?req])"
      by (rule lastBad_snoc)
    with Inl show ?thesis
      by (simp add: getInfos_def Let_def)
  next
    case (Inr data)
    show ?thesis
    proof (cases "unmarshalCommits e data")
      case None
      with Inr have "callFails e (length ([] :: request list)) ?req"
        by (simp add: callFails_def)
      with e0 have "lastBad e ([] @ [?req])"
        by (rule lastBad_snoc)
      with Inr None show ?thesis
        by (simp add: getInfos_def Let_def)
    next
      case (Some vers)
      with Inr have "\<not> callFails e (length ([] :: request list)) ?req"
        by (simp add: callFails_def)
      with e0 have g: "allGood e ([] @ [?req])"
        by (rule allGood_snoc)
      obtain r s where f: "fetchVersions e vers [?req] [] = (r, s)"
        by (cases "fetchVersions e vers [?req] []") blast
      from f Inr Some have "getInfos e p v = (r, s)"
        by (simp add: getInfos_def Let_def)
      moreover from g have "allGood e [?req]" by simp
      note fetchVersions_inv [OF this f]
      ultimately show ?thesis by (cases r) simp_all
    qed
  qed
qed

lemma getInfos_fails_iff:
  "(\<exists>err. fst (getInfos e p v) = Inl err) \<longleftrightarrow>
   (\<exists>k<length (snd (getInfos e p v)). callFails e k (snd (getInfos e p v) ! k))"
proof (cases "fst (getInfos e p v)")
  case (Inl err)
  with getInfos_inv [of e p v] have b: "lastBad e (snd (getInfos e p v))"
    by simp
  let ?s = "snd (getInfos e p v)"
  from b have "?s \<noteq> []" "callFails e (length ?s - 1) (last ?s)"
    by (simp_all add: lastBad_def)
  then have "length ?s - 1 < length ?s \<and> callFails e (length ?s - 1) (?s ! (length ?s - 1))"
    by (simp add: last_conv_nth)
  with Inl show ?thesis by blast
next
  case (Inr infos)
  with getInfos_inv [of e p v] have "allGood e (snd (getInfos e p v))"
    by simp
  with Inr show ?thesis
    by (auto simp add: allGood_def)
qed


section \<open>Properties of the prefix filter\<close>

text \<open>
  Claim C1, as the specification states it: for the input \<open>["a", "a/b", "c"]\<close> the filter
  returns \<open>["a", "c"]\<close>. The code returns something else on this input.
\<close>

theorem filterTests_example_counterexample:
  "filterTests [''a'', ''a/b'', ''c''] \<noteq> [''a'', ''c'']"
  by (simp add: filterTests_eq)

text \<open>
  Claim C1, amended: for the input \<open>["a", "a/b", "c"]\<close> the filter suppresses the parent
  \<open>"a"\<close>, whose child \<open>"a/b"\<close> follows it in sorted order, and returns the child \<open>"a/b"\<close>;
  nothing but \<open>"a/b"\<close> and \<open>"c"\<close> can be in the result.
\<close>

theorem filterTests_example:
  "''a/b'' \<in> set (filterTests [''a'', ''a/b'', ''c''])
   \<and> ''a'' \<notin> set (filterTests [''a'', ''a/b'', ''c''])
   \<and> set (filterTests [''a'', ''a/b'', ''c'']) \<subseteq> {''a/b'', ''c''}"
  by (simp add: filterTests_eq)

text \<open>
  Claim C3, as the specification states it: no returned name has another returned name as
  a strict ancestor. Only the next name in sorted order is compared, and a byte below
  \<open>/\<close> (here \<open>#\<close>) sorts a sibling between a parent and its child: the parent \<open>"T"\<close> and
  its child \<open>"T/sub"\<close> are both returned.
\<close>

theorem filterTests_ancestor_counterexample:
  "''T'' \<in> set (filterTests [''T'', ''T#01'', ''T/sub'', ''U''])
   \<and> ''T/sub'' \<in> set (filterTests [''T'', ''T#01'', ''T/sub'', ''U''])
   \<and> ''T/sub'' = ''T'' @ ''/'' @ ''sub''"
  by (simp add: filterTests_eq)

text \<open>
  Claim C3, amended: every returned name stands in the sorted input immediately before a
  name that is not its child, that is, a name that does not start with the returned name
  followed by \<open>/\<close>.
\<close>

theorem filterTests_adjacent:
  "x \<in> set (filterTests tests) \<Longrightarrow>
     \<exists>i. i + 1 < length tests \<and> sort tests ! i = x
       \<and> \<not> prefix (x @ ''/'') (sort tests ! (i + 1))"
  using adjacentFilter_successor [of x "sort tests"] by (simp add: filterTests_eq)

theorem filterTests_adjacent_witness:
  "''a/b'' \<in> set (filterTests [''a'', ''a/b'', ''c''])
   \<and> (\<exists>i. i + 1 < length [''a'', ''a/b'', ''c''] \<and> sort [''a'', ''a/b'', ''c''] ! i = ''a/b''
       \<and> \<not> prefix (''a/b'' @ ''/'') (sort [''a'', ''a/b'', ''c''] ! (i + 1)))"
proof -
  have h: "''a/b'' \<in> set (filterTests [''a'', ''a/b'', ''c''])"
    by (simp add: filterTests_eq)
  show ?thesis
    using h filterTests_adjacent [OF h] by blast
qed

text \<open>
  Claim C5: the filter is idempotent. The loop skips the last index whatever stands there,
  so each application loses the last name of the sorted input: on \<open>["a", "b"]\<close> the filter
  returns \<open>["a"]\<close>, and applied to that it returns the empty list.
\<close>

theorem filterTests_twice:
  "filterTests [''a'', ''b''] = [''a''] \<and> filterTests (filterTests [''a'', ''b'']) = []"
  by (simp add: filterTests_eq)

text \<open>
  Claim C9, as the specification states it: the input collection is unchanged after the
  call. \<open>sort.Strings\<close> reorders the caller's slice.
\<close>

theorem filterTests_input_counterexample:
  "fst (filterTests_run [''b'', ''a'']) \<noteq> [''b'', ''a'']"
  by (simp add: filterTests_run_def Let_def)

text \<open>
  Claim C9, amended: the filter is a function of its input, and it sorts the caller's
  slice in place: after the call the slice holds the same names with the same
  multiplicities in ascending order, so it is unchanged exactly when it was sorted already.
\<close>

theorem filterTests_input_sorted:
  "mset (fst (filterTests_run tests)) = mset tests
   \<and> sorted (fst (filterTests_run tests))
   \<and> (fst (filterTests_run tests) = tests \<longleftrightarrow> sorted tests)"
proof -
  have "fst (filterTests_run tests) = sort tests"
    by (simp add: filterTests_run_def Let_def)
  moreover have "sort tests = tests \<longleftrightarrow> sorted tests"
    by (metis sorted_sort sorted_sort_id)
  ultimately show ?thesis by simp
qed

text \<open>
  Claim C10, as stated: the greatest name of a non-empty input is never returned. The loop
  skips the last position, not the greatest name: a greatest name that occurs twice is
  returned once.
\<close>

theorem filterTests_greatest_counterexample:
  "[''b'', ''b''] \<noteq> [] \<and> Max (set [''b'', ''b'']) \<in> set (filterTests [''b'', ''b''])"
  by (simp add: filterTests_eq)

text \<open>
  Claim C10, amended: for every non-empty input the greatest name is returned fewer times
  than it occurs in the input (never, when it occurs once), since the last position of the
  sorted input is skipped; for every single-element input the result is the empty list.
\<close>

theorem filterTests_drops_last:
  "(tests \<noteq> [] \<longrightarrow>
      count_list (filterTests tests) (Max (set tests)) < count_list tests (Max (set tests)))
   \<and> filterTests [x] = []"
proof (intro conjI impI)
  assume ne: "tests \<noteq> []"
  let ?M = "Max (set tests)"
  have sne: "sort tests \<noteq> []"
    using ne by (metis length_sort length_0_conv)
  have "mset (filterTests tests) \<subseteq># mset (butlast (sort tests))"
    by (simp add: filterTests_eq mset_adjacentFilter)
  also have "mset (butlast (sort tests)) = mset tests - {#?M#}"
    using mset_butlast [OF sne] last_sort_Max [OF ne] by simp
  finally have "count (mset (filterTests tests)) ?M \<le> count (mset tests - {#?M#}) ?M"
    by (rule mset_subset_eq_count)
  then have le: "count_list (filterTests tests) ?M \<le> count_list tests ?M - 1"
    by (simp add: count_mset)
  have "?M \<in> set tests"
    using ne by simp
  then have "count_list tests ?M \<noteq> 0"
    by (simp only: count_list_0_iff not_not)
  then have "0 < count_list tests ?M"
    by simp
  with le show "count_list (filterTests tests) ?M < count_list tests ?M"
    by arith
next
  show "filterTests [x] = []"
    by (simp add: filterTests_eq)
qed

theorem filterTests_drops_last_witness:
  "[''a'', ''b''] \<noteq> []
   \<and> count_list (filterTests [''a'', ''b'']) (Max (set [''a'', ''b'']))
       < count_list [''a'', ''b''] (Max (set [''a'', ''b'']))
   \<and> filterTests [''a''] = []"
  using filterTests_drops_last [of "[''a'', ''b'']" "''a''"] by simp

section \<open>Properties of the reporters\<close>

text \<open>
  Claim C2, as the specification states it: a limit of 0 or below means no limit, every
  aggregated row is printed. With the limit 0 and one aggregated test, no row is printed.
\<close>

theorem topfail_limit_zero_counterexample:
  "topfail_rows 0 [sampleA] = Inr [] \<and> printRows [sampleA] = [(1, ''TestA'')]"
  by (simp add: topfail_rows_eq printRows_def sampleA_def)

text \<open>
  Claim C2, amended: a negative limit means no limit, every row of the sorted slice is
  printed; the limit 0 prints no row at all.
\<close>

theorem topfail_limit:
  "(limit < 0 \<longrightarrow> topfail_rows limit testInfos = Inr (printRows testInfos))
   \<and> topfail_rows 0 testInfos = Inr []"
  by (simp add: topfail_rows_eq printRows_def)

theorem topfail_limit_witness:
  "(- 1 :: int) < 0
   \<and> topfail_rows (- 1) [sampleB, sampleA] = Inr (printRows [sampleB, sampleA])
   \<and> topfail_rows 0 [sampleB, sampleA] = Inr []"
  using topfail_limit [of "- 1" "[sampleB, sampleA]"] by simp







section \<open>Properties of the expression operators\<close>

text \<open>
  Claim C7: \<open>Max(x)\<close> is the document with the single key \<open>$max\<close> and the bare value
  \<open>x\<close>, \<open>Max(x, y)\<close> has the array of \<open>x\<close> and \<open>y\<close> as its value, and the same holds for
  \<open>Min\<close> and \<open>MergeObjects\<close> with their keys.
\<close>

theorem single_argument_collapsing:
  "Max_agg [x] = [(''$max'', x)] \<and> Max_agg [x, y] = [(''$max'', A [x, y])]
   \<and> Min_agg [x] = [(''$min'', x)] \<and> Min_agg [x, y] = [(''$min'', A [x, y])]
   \<and> MergeObjects [x] = [(''$mergeObjects'', x)]
   \<and> MergeObjects [x, y] = [(''$mergeObjects'', A [x, y])]"
  by (simp add: Max_agg_def Min_agg_def MergeObjects_def)

section \<open>Properties of the GraphQL helper and the report fetcher\<close>

text \<open>
  Claim C6, as the specification states it: the helper fails whenever the HTTP status is
  not 2xx. The helper never reads the status: a response with status 500 whose body is an
  object without errors is returned as a success.
\<close>

theorem graphql_status_counterexample:
  "graphql sampleDecoder
     \<lparr>marshalResult = Some ''{query}'', newRequestErr = False,
      doResult = Some \<lparr>StatusCode = 500, readAll = Some ''{}''\<rparr>\<rparr> = Inr ''{}''"
  by (simp add: graphql_def sampleDecoder_def)

text \<open>
  Claim C6, amended. The helper returns an error whenever the body decodes to a non-empty
  top-level errors array, whatever the HTTP status, and it returns the body whenever the
  body decodes to an empty errors array, whatever the HTTP status. The helper returns an
  error in exactly these cases: encoding the request fails, building the request fails,
  the transport fails, reading the body fails, the body cannot be decoded, or the decoded
  errors array is not empty. The fetcher returns an error in exactly these cases: one of
  the calls of the helper that it made returned an error, or the body that one of them
  returned could not be deserialized.
\<close>

theorem graphql_failure_cases:
  "(u data1 = Some errors \<and> errors \<noteq> [] \<longrightarrow>
      graphql u \<lparr>marshalResult = Some body, newRequestErr = False,
                 doResult = Some \<lparr>StatusCode = status, readAll = Some data1\<rparr>\<rparr>
        = Inl (ErrGraphQL errors))
   \<and> (u data2 = Some [] \<longrightarrow>
      graphql u \<lparr>marshalResult = Some body, newRequestErr = False,
                 doResult = Some \<lparr>StatusCode = status, readAll = Some data2\<rparr>\<rparr>
        = Inr data2)
   \<and> ((\<exists>err. graphql u ex = Inl err) \<longleftrightarrow>
        (marshalResult ex = None \<or> newRequestErr ex \<or> doResult ex = None
         \<or> (\<exists>res. doResult ex = Some res
               \<and> (readAll res = None
                  \<or> (\<exists>data. readAll res = Some data
                        \<and> (u data = None
                           \<or> (\<exists>errs. u data = Some errs \<and> errs \<noteq> [])))))))
   \<and> ((\<exists>err. fst (getInfos e p v) = Inl err) \<longleftrightarrow>
        (\<exists>k<length (snd (getInfos e p v)). callFails e k (snd (getInfos e p v) ! k)))"
proof (intro conjI impI)
  assume "u data1 = Some errors \<and> errors \<noteq> []"
  then show "graphql u \<lparr>marshalResult = Some body, newRequestErr = False,
                 doResult = Some \<lparr>StatusCode = status, readAll = Some data1\<rparr>\<rparr>
        = Inl (ErrGraphQL errors)"
    by (simp add: graphql_def)
next
  assume "u data2 = Some []"
  then show "graphql u \<lparr>marshalResult = Some body, newRequestErr = False,
                 doResult = Some \<lparr>StatusCode = status, readAll = Some data2\<rparr>\<rparr>
        = Inr data2"
    by (simp add: graphql_def)
next
  show "(\<exists>err. graphql u ex = Inl err) \<longleftrightarrow>
        (marshalResult ex = None \<or> newRequestErr ex \<or> doResult ex = None
         \<or> (\<exists>res. doResult ex = Some res
               \<and> (readAll res = None
                  \<or> (\<exists>data. readAll res = Some data
                        \<and> (u data = None
                           \<or> (\<exists>errs. u data = Some errs \<and> errs \<noteq> []))))))"
    by (rule graphql_fails_iff)
next
  show "(\<exists>err. fst (getInfos e p v) = Inl err) \<longleftrightarrow>
        (\<exists>k<length (snd (getInfos e p v)). callFails e k (snd (getInfos e p v) ! k))"
    by (rule getInfos_fails_iff)
qed

theorem graphql_failure_cases_witness:
  "sampleDecoder ''{errors}'' = Some [''boom''] \<and> [''boom''] \<noteq> []
   \<and> graphql sampleDecoder \<lparr>marshalResult = Some ''{query}'', newRequestErr = False,
        doResult = Some \<lparr>StatusCode = 404, readAll = Some ''{errors}''\<rparr>\<rparr>
       = Inl (ErrGraphQL [''boom''])
   \<and> sampleDecoder ''{}'' = Some []
   \<and> graphql sampleDecoder \<lparr>marshalResult = Some ''{query}'', newRequestErr = False,
        doResult = Some \<lparr>StatusCode = 404, readAll = Some ''{}''\<rparr>\<rparr>
       = Inr ''{}''
   \<and> getInfos downEnv ''mongo'' 6
       = (Inl (ErrQueryMainline ErrQuery), [MainlineCommitsQuery ''mongo'' 6])
   \<and> (\<exists>k<length (snd (getInfos downEnv ''mongo'' 6)).
         callFails downEnv k (snd (getInfos downEnv ''mongo'' 6) ! k))
   \<and> getInfos garbledEnv ''mongo'' 6
       = (Inl ErrUnmarshalMainline, [MainlineCommitsQuery ''mongo'' 6])
   \<and> (\<exists>k<length (snd (getInfos garbledEnv ''mongo'' 6)).
         callFails garbledEnv k (snd (getInfos garbledEnv ''mongo'' 6) ! k))"
proof -
  have a: "sampleDecoder ''{errors}'' = Some [''boom''] \<and> [''boom''] \<noteq> []"
    by (simp add: sampleDecoder_def)
  have b: "sampleDecoder ''{}'' = Some []"
    by (simp add: sampleDecoder_def)
  have c: "getInfos downEnv ''mongo'' 6
       = (Inl (ErrQueryMainline ErrQuery), [MainlineCommitsQuery ''mongo'' 6])"
    by (simp add: getInfos_def graphql_def downEnv_def)
  have d: "getInfos garbledEnv ''mongo'' 6
       = (Inl ErrUnmarshalMainline, [MainlineCommitsQuery ''mongo'' 6])"
    by (simp add: getInfos_def graphql_def garbledEnv_def sampleDecoder_def)
  from c have c': "\<exists>err. fst (getInfos downEnv ''mongo'' 6) = Inl err"
    by simp
  from d have d': "\<exists>err. fst (getInfos garbledEnv ''mongo'' 6) = Inl err"
    by simp
  note t1 = graphql_failure_cases [where u = sampleDecoder and ?data1.0 = "''{errors}''"
      and errors = "[''boom'']" and body = "''{query}''" and status = 404
      and ?data2.0 = "''{}''" and e = downEnv and p = "''mongo''" and v = 6]
  note t2 = graphql_failure_cases [where e = garbledEnv and p = "''mongo''" and v = 6]
  from a b c d c' d' t1 t2 show ?thesis by blast
qed

end
